theory Spec2Isabelle
  imports Complex_Main "HOL-Library.Word"
begin

unbundle bit_operations_syntax

section \<open>Preliminaries: bytes, strings, printed numbers\<close>

text \<open>
  A \<open>Uint8Array\<close> is a list of 8-bit words. A JavaScript string is modelled as a
  \<open>string\<close> holding its UTF-8 bytes, so \<open>TextEncoder.encode\<close> is the bytewise
  conversion; the program only concatenates strings, compares them, splits them at ASCII
  characters and matches ASCII patterns, all of which agree on that reading.
\<close>

type_synonym byte = "8 word"
type_synonym bytes = "byte list"

definition encode :: "string \<Rightarrow> bytes" where
  "encode s = map of_char s"

text \<open>The ellipsis U+2026, a-acute U+00E1 and the double quote of the message texts.\<close>

definition hellip :: string where
  "hellip = [CHR 0xE2, CHR 0x80, CHR 0xA6]"

definition aacute :: string where
  "aacute = [CHR 0xC3, CHR 0xA1]"

definition dquote :: string where
  "dquote = [CHR 0x22]"

text \<open>\<open>String(n)\<close> and template interpolation of an integer-valued number.\<close>

definition digit_char :: "nat \<Rightarrow> char" where
  "digit_char d = ''0123456789'' ! (d mod 10)"

function showNat :: "nat \<Rightarrow> string" where
  "showNat n = (if n < 10 then [digit_char n] else showNat (n div 10) @ [digit_char (n mod 10)])"
  by pat_completeness auto
termination
  by (relation "measure id") auto

declare showNat.simps [simp del]

definition showInt :: "int \<Rightarrow> string" where
  "showInt i = (if i < 0 then ''-'' @ showNat (nat (- i)) else showNat (nat i))"

text \<open>\<open>parts.join(sep)\<close>.\<close>

fun join :: "string \<Rightarrow> string list \<Rightarrow> string" where
  "join sep [] = []"
| "join sep [x] = x"
| "join sep (x # y # ys) = x @ sep @ join sep (y # ys)"

text \<open>\<open>s.padStart(n, "0")\<close>.\<close>

definition padStart0 :: "nat \<Rightarrow> string \<Rightarrow> string" where
  "padStart0 n s = replicate (n - length s) CHR ''0'' @ s"

text \<open>ASCII case folding, as the \<open>i\<close> flag of a regular expression without the \<open>u\<close> flag
  compares ASCII letters.\<close>

definition lower_char :: "char \<Rightarrow> char" where
  "lower_char c =
     (let n = (of_char c :: nat) in if 65 \<le> n \<and> n \<le> 90 then char_of (n + 32) else c)"

definition lower :: "string \<Rightarrow> string" where
  "lower s = map lower_char s"

text \<open>\<open>/\.pdf$/i.test(s)\<close> and \<open>s.replace(/\.pdf$/i, "")\<close>.\<close>

definition ends_with_pdf :: "string \<Rightarrow> bool" where
  "ends_with_pdf s = (4 \<le> length s \<and> lower (drop (length s - 4) s) = ''.pdf'')"

definition strip_pdf :: "string \<Rightarrow> string" where
  "strip_pdf s = (if ends_with_pdf s then take (length s - 4) s else s)"

text \<open>\<open>re.test(s)\<close> for a pattern that is a plain word: some suffix of \<open>s\<close> starts with it.\<close>

fun contains :: "string \<Rightarrow> string \<Rightarrow> bool" where
  "contains w [] = (w = [])"
| "contains w (c # cs) = (take (length w) (c # cs) = w \<or> contains w cs)"

text \<open>\<open>Array.from(new Set(xs))\<close>: the first occurrence of every element, in order.\<close>

definition uniq :: "'a list \<Rightarrow> 'a list" where
  "uniq xs = rev (remdups (rev xs))"

section \<open>The job protocol (worker/messages.ts)\<close>

record input_file =
  file_name :: string
  file_bytes :: bytes
  file_password :: "string option"

datatype output_mode = Single | Zip
datatype level = Small | Balanced | Best
datatype img_format = Png | Jpg

text \<open>
  \<open>WorkerRequest\<close>. The number type is a parameter: the engine is modelled on requests
  whose page numbers are integers, the requester builds requests from the numbers its
  parser reads. \<open>Unknown\<close> is a message of no known \<open>type\<close>, with the job id it may carry.
\<close>

datatype 'n WorkerRequest =
    Merge string "input_file list"
  | Split string input_file "'n list" "'n list list" output_mode
  | Compress string input_file level
  | Pdf2img string input_file img_format nat
  | Unknown "string option"

datatype WorkerEvent =
    Progress string nat string
  | Result string string bytes string
  | Error string string

fun event_jobId :: "WorkerEvent \<Rightarrow> string" where
  "event_jobId (Progress j p n) = j"
| "event_jobId (Result j outputName outputBytes mime) = j"
| "event_jobId (Error j m) = j"

definition postProgress :: "string \<Rightarrow> nat \<Rightarrow> string \<Rightarrow> WorkerEvent" where
  "postProgress jobId progress note = Progress jobId progress note"

definition postError :: "string \<Rightarrow> string \<Rightarrow> WorkerEvent" where
  "postError jobId message = Error jobId message"

definition postResult :: "string \<Rightarrow> string \<Rightarrow> bytes \<Rightarrow> string \<Rightarrow> WorkerEvent" where
  "postResult jobId outputName outputBytes mime = Result jobId outputName outputBytes mime"

section \<open>The archive encoder (worker/engine.worker.ts)\<close>

text \<open>\<open>DataView.setUint16\<close> and \<open>setUint32\<close> with \<open>littleEndian = true\<close>: the value is
  taken modulo the field width, the low byte comes first.\<close>

definition setUint16 :: "16 word \<Rightarrow> bytes" where
  "setUint16 w = [ucast w, ucast (drop_bit 8 w)]"

definition setUint32 :: "32 word \<Rightarrow> bytes" where
  "setUint32 w = [ucast w, ucast (drop_bit 8 w), ucast (drop_bit 16 w), ucast (drop_bit 24 w)]"

definition crc_bit :: "32 word \<Rightarrow> 32 word" where
  "crc_bit c = (if bit c 0 then 0xedb88320 XOR drop_bit 1 c else drop_bit 1 c)"

definition CRC_TABLE :: "nat \<Rightarrow> 32 word" where
  "CRC_TABLE n = (crc_bit ^^ 8) (of_nat n)"

definition crc32 :: "bytes \<Rightarrow> 32 word" where
  "crc32 buf =
     fold (\<lambda>b crc. drop_bit 8 crc XOR CRC_TABLE (unat ((crc XOR ucast b) AND 0xff))) buf (- 1)
       XOR (- 1)"

definition concatBytes :: "bytes list \<Rightarrow> bytes" where
  "concatBytes parts = concat parts"

text \<open>The fields of a \<open>Date\<close> that \<open>dosDateTime\<close> reads.\<close>

record js_date =
  getHours :: int
  getMinutes :: int
  getSeconds :: int
  getFullYear :: int
  getMonth :: int
  getDate :: int

text \<open>The shifts and ors are 32-bit in JavaScript; the low 16 bits, which is all that
  \<open>& 0xffff\<close> keeps, are those of the exact integers.\<close>

definition dosDateTime :: "js_date \<Rightarrow> 16 word \<times> 16 word" where
  "dosDateTime d =
     (let time = push_bit 11 (getHours d) OR push_bit 5 (getMinutes d) OR (getSeconds d div 2);
          date = push_bit 9 (getFullYear d - 1980) OR push_bit 5 (getMonth d + 1) OR getDate d
      in (of_int time, of_int date))"

record zip_entry =
  entry_name :: string
  entry_data :: bytes

definition local_header :: "js_date \<Rightarrow> zip_entry \<Rightarrow> bytes" where
  "local_header d entry =
     (let nameBytes = encode (entry_name entry);
          (time, date) = dosDateTime d;
          crc = crc32 (entry_data entry)
      in setUint32 0x04034b50 @ setUint16 20 @ setUint16 0 @ setUint16 0
         @ setUint16 time @ setUint16 date @ setUint32 crc
         @ setUint32 (of_nat (length (entry_data entry)))
         @ setUint32 (of_nat (length (entry_data entry)))
         @ setUint16 (of_nat (length nameBytes)) @ setUint16 0 @ nameBytes)"

definition central_header :: "js_date \<Rightarrow> zip_entry \<Rightarrow> nat \<Rightarrow> bytes" where
  "central_header d entry offset =
     (let nameBytes = encode (entry_name entry);
          (time, date) = dosDateTime d;
          crc = crc32 (entry_data entry)
      in setUint32 0x02014b50 @ setUint16 20 @ setUint16 20 @ setUint16 0 @ setUint16 0
         @ setUint16 time @ setUint16 date @ setUint32 crc
         @ setUint32 (of_nat (length (entry_data entry)))
         @ setUint32 (of_nat (length (entry_data entry)))
         @ setUint16 (of_nat (length nameBytes)) @ setUint16 0 @ setUint16 0 @ setUint16 0
         @ setUint16 0 @ setUint32 0 @ setUint32 (of_nat offset) @ nameBytes)"

text \<open>
  The loop of \<open>buildZip\<close> over the entries, with its three accumulators. \<open>clock i\<close> is
  the \<open>new Date()\<close> that \<open>dosDateTime()\<close> reads while entry \<open>i\<close> is encoded.
\<close>

fun zip_loop ::
  "(nat \<Rightarrow> js_date) \<Rightarrow> nat \<Rightarrow> zip_entry list \<Rightarrow> bytes list \<Rightarrow> bytes list \<Rightarrow> nat
    \<Rightarrow> bytes list \<times> bytes list \<times> nat" where
  "zip_loop clock i [] locals centrals offset = (locals, centrals, offset)"
| "zip_loop clock i (entry # rest) locals centrals offset =
     (let local = local_header (clock i) entry;
          central = central_header (clock i) entry offset
      in zip_loop clock (Suc i) rest (locals @ [local, entry_data entry]) (centrals @ [central])
           (offset + length local + length (entry_data entry)))"

definition end_record :: "nat \<Rightarrow> nat \<Rightarrow> nat \<Rightarrow> bytes" where
  "end_record count dirSize offset =
     setUint32 0x06054b50 @ setUint16 0 @ setUint16 0
     @ setUint16 (of_nat count) @ setUint16 (of_nat count)
     @ setUint32 (of_nat dirSize) @ setUint32 (of_nat offset) @ setUint16 0"

definition buildZip :: "(nat \<Rightarrow> js_date) \<Rightarrow> zip_entry list \<Rightarrow> bytes" where
  "buildZip clock entries =
     (let (locals, centrals, offset) = zip_loop clock 0 entries [] [] 0;
          centralDir = concatBytes centrals
      in concatBytes (locals @ [centralDir, end_record (length entries) (length centralDir) offset]))"

section \<open>The rewrite adapter (worker/engine.worker.ts)\<close>

text \<open>
  The engine's virtual file system is a map from paths to contents; the module keeps the
  counter \<open>qpdfRunId\<close> beside it. \<open>writeFile\<close> into the directories made at start-up
  succeeds; \<open>readFile\<close> and \<open>unlink\<close> of a missing path throw the file system's error.
\<close>

type_synonym fs = "string \<rightharpoonup> bytes"

record qpdf_state =
  qpdfRunId :: nat
  FS :: fs

text \<open>
  The collaborators, which are not code of this program, are parameters:
  \<^item> \<open>qpdf_init\<close>: the message with which \<open>getQpdf()\<close> rejects, if it does (the promise
    is memoised, so every call of one run sees the same outcome);
  \<^item> \<open>callMain\<close>: what a run of the rewrite engine on the given arguments does to the file
    system, and the message of what it throws, if it throws;
  \<^item> \<open>fs_error\<close>: the message of the error thrown for a missing path;
  \<^item> \<open>pdf_load\<close>, \<open>pdf_save\<close>: \<open>PDFDocument.load\<close> and \<open>save\<close> of the document library,
    a document being the list of its pages; \<open>copy_error\<close>: the message thrown by
    \<open>copyPages\<close> for an index that is no page of the source;
  \<^item> \<open>mupdf_import\<close>, \<open>openDocument\<close>, \<open>render\<close>: the render engine: the failure of its
    import, opening a document, and rendering one page in a format at a resolution
    (\<open>loadPage\<close>, \<open>toPixmap\<close> at scale \<open>dpi / 72\<close>, \<open>asPNG\<close> or \<open>asJPEG\<close>);
  \<^item> \<open>clock\<close>: the date read while the archive encoder writes its \<open>i\<close>-th entry.
\<close>

record 'pg env =
  qpdf_init :: "string option"
  callMain :: "string list \<Rightarrow> fs \<Rightarrow> string option \<times> fs"
  fs_error :: string
  pdf_load :: "bytes \<Rightarrow> string + 'pg list"
  pdf_save :: "'pg list \<Rightarrow> string + bytes"
  copy_error :: string
  mupdf_import :: "string option"
  openDocument :: "bytes \<Rightarrow> string + 'pg list"
  render :: "'pg \<Rightarrow> img_format \<Rightarrow> nat \<Rightarrow> string + bytes"
  clock :: "nat \<Rightarrow> js_date"

definition writeFile :: "string \<Rightarrow> bytes \<Rightarrow> fs \<Rightarrow> fs" where
  "writeFile path content files = files(path \<mapsto> content)"

definition readFile :: "'pg env \<Rightarrow> string \<Rightarrow> fs \<Rightarrow> string + bytes" where
  "readFile env path files = (case files path of None \<Rightarrow> Inl (fs_error env) | Some b \<Rightarrow> Inr b)"

text \<open>\<open>try { unlink(in); unlink(out) } catch { }\<close>: when the first \<open>unlink\<close> throws, the
  second is not reached.\<close>

definition cleanup :: "string \<Rightarrow> string \<Rightarrow> fs \<Rightarrow> fs" where
  "cleanup inPath outPath files =
     (case files inPath of
        None \<Rightarrow> files
      | Some b \<Rightarrow> (files(inPath := None))(outPath := None))"

definition inPath :: "nat \<Rightarrow> string" where
  "inPath rid = ''/in/in_'' @ showNat rid @ ''.pdf''"

definition outPath :: "nat \<Rightarrow> string" where
  "outPath rid = ''/out/out_'' @ showNat rid @ ''.pdf''"

definition label_or_PDF :: "string option \<Rightarrow> string" where
  "label_or_PDF label = (case label of None \<Rightarrow> ''PDF'' | Some l \<Rightarrow> l)"

definition protectedMsg :: "string option \<Rightarrow> string" where
  "protectedMsg label =
     dquote @ label_or_PDF label @ dquote
       @ '' is password-protected. Provide the correct password and try again.''"

definition openFailedMsg :: "string option \<Rightarrow> string \<Rightarrow> string" where
  "openFailedMsg label msg = ''Failed to open '' @ label_or_PDF label @ '' ('' @ msg @ '')''"

text \<open>\<open>/password/i.test(msg)\<close>.\<close>

definition mentions_password :: "string \<Rightarrow> bool" where
  "mentions_password msg = contains ''password'' (lower msg)"

text \<open>
  The \<open>try\<close> block of \<open>decryptPdf\<close>: the file system it leaves, and the bytes it returns or
  the message of what it throws. \<open>readFile\<close> returns an array or throws, so the test
  \<open>!outBytes\<close> never holds.
\<close>

definition decrypt_try ::
  "'pg env \<Rightarrow> nat \<Rightarrow> bytes \<Rightarrow> string option \<Rightarrow> fs \<Rightarrow> fs \<times> (string + bytes)" where
  "decrypt_try env rid content password files =
     (let fs1 = writeFile (inPath rid) content files;
          pwdArg = (case password of
                      None \<Rightarrow> ''--password=''
                    | Some p \<Rightarrow> if p = [] then ''--password='' else ''--password='' @ p);
          args = [''--decrypt'', pwdArg, inPath rid, outPath rid]
      in case callMain env args fs1 of
           (Some thrown, fs2) \<Rightarrow> (fs2, Inl thrown)
         | (None, fs2) \<Rightarrow> (fs2, readFile env (outPath rid) fs2))"

definition decryptPdf ::
  "'pg env \<Rightarrow> qpdf_state \<Rightarrow> bytes \<Rightarrow> string option \<Rightarrow> string option
    \<Rightarrow> qpdf_state \<times> (string + bytes)" where
  "decryptPdf env st content password label =
     (case qpdf_init env of
        Some m \<Rightarrow> (st, Inl m)
      | None \<Rightarrow>
          (let rid = qpdfRunId st + 1 in
           case decrypt_try env rid content password (FS st) of
             (fs2, r) \<Rightarrow>
               (\<lparr>qpdfRunId = rid, FS = cleanup (inPath rid) (outPath rid) fs2\<rparr>,
                case r of
                  Inr outBytes \<Rightarrow> Inr outBytes
                | Inl msg \<Rightarrow>
                    if mentions_password msg then Inl (protectedMsg label)
                    else Inl (openFailedMsg label msg))))"

section \<open>The operations (worker/engine.worker.ts)\<close>

text \<open>
  An operation returns the events it has posted, the state of the rewrite engine it
  leaves, and the message of the error it throws, if it throws. The percentage
  \<open>Math.floor((i / n) * k)\<close> is the floor of the exact quotient \<open>i * k / n\<close>.
\<close>

definition range_part :: "int \<Rightarrow> int \<Rightarrow> string" where
  "range_part start prev =
     (if start = prev then ''p'' @ showInt start
      else ''p'' @ showInt start @ ''-'' @ showInt prev)"

fun range_parts :: "int \<Rightarrow> int \<Rightarrow> int list \<Rightarrow> string list" where
  "range_parts start prev [] = [range_part start prev]"
| "range_parts start prev (n # ns) =
     (if n = prev + 1 then range_parts start n ns
      else range_part start prev # range_parts n n ns)"

definition formatRangeLabel :: "int list \<Rightarrow> string" where
  "formatRangeLabel nums =
     (case sort (uniq nums) of
        [] \<Rightarrow> []
      | s # rest \<Rightarrow> join ''_'' (range_parts s s rest))"

definition copyPages :: "'pg env \<Rightarrow> 'pg list \<Rightarrow> int list \<Rightarrow> string + 'pg list" where
  "copyPages env src indices =
     (if list_all (\<lambda>p. 0 \<le> p \<and> p < int (length src)) indices
      then Inr (map (\<lambda>p. src ! nat p) indices)
      else Inl (copy_error env))"

fun merge_loop ::
  "'pg env \<Rightarrow> string \<Rightarrow> nat \<Rightarrow> nat \<Rightarrow> input_file list \<Rightarrow> qpdf_state \<Rightarrow> 'pg list
    \<Rightarrow> WorkerEvent list \<times> qpdf_state \<times> (string + 'pg list)" where
  "merge_loop env jobId n i [] st out = ([], st, Inr out)"
| "merge_loop env jobId n i (f # rest) st out =
     (let ev = postProgress jobId (10 + (i * 60) div n) (''Importing '' @ file_name f @ hellip)
      in case decryptPdf env st (file_bytes f) (file_password f) (Some (file_name f)) of
           (st1, Inl m) \<Rightarrow> ([ev], st1, Inl m)
         | (st1, Inr unlocked) \<Rightarrow>
             (case pdf_load env unlocked of
                Inl m \<Rightarrow> ([ev], st1, Inl m)
              | Inr doc \<Rightarrow>
                  (case merge_loop env jobId n (Suc i) rest st1 (out @ doc) of
                     (evs, st2, r) \<Rightarrow> (ev # evs, st2, r))))"

definition merge ::
  "'pg env \<Rightarrow> qpdf_state \<Rightarrow> string \<Rightarrow> input_file list
    \<Rightarrow> WorkerEvent list \<times> qpdf_state \<times> string option" where
  "merge env st jobId files =
     (let ev0 = postProgress jobId 5 (''Loading PDFs'' @ hellip);
          ev80 = postProgress jobId 80 (''Saving'' @ hellip)
      in case merge_loop env jobId (length files) 0 files st [] of
           (evs, st1, Inl m) \<Rightarrow> (ev0 # evs, st1, Some m)
         | (evs, st1, Inr out) \<Rightarrow>
             (case pdf_save env out of
                Inl m \<Rightarrow> (ev0 # evs @ [ev80], st1, Some m)
              | Inr saved \<Rightarrow>
                  (ev0 # evs @ [ev80, postProgress jobId 100 ''Done'',
                     postResult jobId ''merged.pdf'' saved ''application/pdf''], st1, None)))"

definition normalize_pages :: "nat \<Rightarrow> int list \<Rightarrow> int list" where
  "normalize_pages pageCount list =
     sort (uniq (filter (\<lambda>p. 0 \<le> p \<and> p < int pageCount) (map (\<lambda>p. p - 1) list)))"

definition base_name :: "string \<Rightarrow> string" where
  "base_name name = (if strip_pdf name = [] then ''document'' else strip_pdf name)"

fun split_loop ::
  "'pg env \<Rightarrow> string \<Rightarrow> string \<Rightarrow> 'pg list \<Rightarrow> nat \<Rightarrow> nat \<Rightarrow> int list list \<Rightarrow> zip_entry list
    \<Rightarrow> WorkerEvent list \<times> (string + zip_entry list)" where
  "split_loop env jobId base src n i [] entries = ([], Inr entries)"
| "split_loop env jobId base src n i (rng # rest) entries =
     (let humanPages = map (\<lambda>p. p + 1) rng;
          ev = postProgress jobId (10 + (i * 60) div n)
                 (''Extrayendo p'' @ aacute @ ''ginas '' @ join '','' (map showInt humanPages) @ hellip)
      in case copyPages env src rng of
           Inl m \<Rightarrow> ([ev], Inl m)
         | Inr copied \<Rightarrow>
             (case pdf_save env copied of
                Inl m \<Rightarrow> ([ev], Inl m)
              | Inr saved \<Rightarrow>
                  (let label = (if formatRangeLabel humanPages = [] then ''range'' @ showNat (i + 1)
                                else formatRangeLabel humanPages);
                       entry = \<lparr>entry_name = base @ ''_'' @ label @ ''.pdf'', entry_data = saved\<rparr>
                   in case split_loop env jobId base src n (Suc i) rest (entries @ [entry]) of
                        (evs, r) \<Rightarrow> (ev # evs, r))))"

definition split_zip ::
  "'pg env \<Rightarrow> string \<Rightarrow> input_file \<Rightarrow> 'pg list \<Rightarrow> int list \<Rightarrow> int list list
    \<Rightarrow> WorkerEvent list \<times> string option" where
  "split_zip env jobId file src pages ranges =
     (let base = base_name (file_name file);
          normalizedRanges =
            filter (\<lambda>r. r \<noteq> [])
              (map (normalize_pages (length src)) (if ranges = [] then [pages] else ranges))
      in case split_loop env jobId base src (length normalizedRanges) 0 normalizedRanges [] of
           (evs, Inl m) \<Rightarrow> (evs, Some m)
         | (evs, Inr entries) \<Rightarrow>
             (evs @ [postProgress jobId 85 (''Creando ZIP'' @ hellip),
                postProgress jobId 100 ''Done'',
                postResult jobId (base @ ''_pages.zip'') (buildZip (clock env) entries)
                  ''application/zip''], None))"

definition split_single ::
  "'pg env \<Rightarrow> string \<Rightarrow> 'pg list \<Rightarrow> int list \<Rightarrow> WorkerEvent list \<times> string option" where
  "split_single env jobId src indices =
     (let ev40 = postProgress jobId 40 (''Extracting pages'' @ hellip);
          ev80 = postProgress jobId 80 (''Saving'' @ hellip)
      in case copyPages env src indices of
           Inl m \<Rightarrow> ([ev40], Some m)
         | Inr copied \<Rightarrow>
             (case pdf_save env copied of
                Inl m \<Rightarrow> ([ev40, ev80], Some m)
              | Inr saved \<Rightarrow>
                  ([ev40, ev80, postProgress jobId 100 ''Done'',
                    postResult jobId ''split_pages.pdf'' saved ''application/pdf''], None)))"

definition split ::
  "'pg env \<Rightarrow> qpdf_state \<Rightarrow> string \<Rightarrow> input_file \<Rightarrow> int list \<Rightarrow> int list list \<Rightarrow> output_mode
    \<Rightarrow> WorkerEvent list \<times> qpdf_state \<times> string option" where
  "split env st jobId file pages ranges output =
     (let ev0 = postProgress jobId 5 (''Loading PDF'' @ hellip)
      in case decryptPdf env st (file_bytes file) (file_password file) (Some (file_name file)) of
           (st1, Inl m) \<Rightarrow> ([ev0], st1, Some m)
         | (st1, Inr unlocked) \<Rightarrow>
             (case pdf_load env unlocked of
                Inl m \<Rightarrow> ([ev0], st1, Some m)
              | Inr src \<Rightarrow>
                  (let indices = normalize_pages (length src) pages
                   in if indices = [] then ([ev0], st1, Some ''No valid pages selected.'')
                      else case (case output of
                                   Zip \<Rightarrow> split_zip env jobId file src pages ranges
                                 | Single \<Rightarrow> split_single env jobId src indices) of
                             (evs, thrown) \<Rightarrow> (ev0 # evs, st1, thrown))))"

definition levelArgs :: "level \<Rightarrow> string list" where
  "levelArgs level =
     (case level of
        Small \<Rightarrow> [''--recompress-flate'']
      | Best \<Rightarrow> [''--recompress-flate'']
      | Balanced \<Rightarrow> [''--recompress-flate''])"

definition compress_args :: "level \<Rightarrow> nat \<Rightarrow> string list" where
  "compress_args level rid =
     [''--object-streams=generate'', ''--stream-data=compress''] @ levelArgs level
       @ [inPath rid, outPath rid]"

definition compress ::
  "'pg env \<Rightarrow> qpdf_state \<Rightarrow> string \<Rightarrow> input_file \<Rightarrow> level
    \<Rightarrow> WorkerEvent list \<times> qpdf_state \<times> string option" where
  "compress env st jobId file level =
     (let ev0 = postProgress jobId 5 (''Initializing qpdf (WASM)'' @ hellip);
          ev30 = postProgress jobId 30 (''Rewriting PDF'' @ hellip)
      in case qpdf_init env of
           Some m \<Rightarrow> ([ev0], st, Some m)
         | None \<Rightarrow>
            (case decryptPdf env st (file_bytes file) (file_password file)
                    (Some (file_name file)) of
               (st1, Inl m) \<Rightarrow> ([ev0], st1, Some m)
             | (st1, Inr unlocked) \<Rightarrow>
                 (let rid = qpdfRunId st1 + 1;
                      fs1 = writeFile (inPath rid) unlocked (FS st1)
                  in case callMain env (compress_args level rid) fs1 of
                       (Some thrown, fs2) \<Rightarrow>
                         ([ev0, ev30], \<lparr>qpdfRunId = rid, FS = fs2\<rparr>, Some thrown)
                     | (None, fs2) \<Rightarrow>
                         (case fs2 (outPath rid) of
                            None \<Rightarrow>
                              ([ev0, ev30], \<lparr>qpdfRunId = rid, FS = fs2\<rparr>,
                               Some ''qpdf-wasm returned no output (out.pdf missing).'')
                          | Some outBytes \<Rightarrow>
                              ([ev0, ev30, postProgress jobId 100 ''Done'',
                                postResult jobId
                                  (''compressed_'' @ strip_pdf (file_name file) @ ''.pdf'')
                                  outBytes ''application/pdf''],
                               \<lparr>qpdfRunId = rid,
                                FS = cleanup (inPath rid) (outPath rid) fs2\<rparr>, None)))))"

definition format_name :: "img_format \<Rightarrow> string" where
  "format_name format = (case format of Png \<Rightarrow> ''png'' | Jpg \<Rightarrow> ''jpg'')"

fun render_loop ::
  "'pg env \<Rightarrow> string \<Rightarrow> img_format \<Rightarrow> nat \<Rightarrow> nat \<Rightarrow> nat \<Rightarrow> 'pg list \<Rightarrow> zip_entry list
    \<Rightarrow> WorkerEvent list \<times> (string + zip_entry list)" where
  "render_loop env jobId format dpi count i [] entries = ([], Inr entries)"
| "render_loop env jobId format dpi count i (page # rest) entries =
     (let ev = postProgress jobId (10 + (i * 70) div count)
                 (''Rendering page '' @ showNat (i + 1) @ hellip)
      in case render env page format dpi of
           Inl m \<Rightarrow> ([ev], Inl m)
         | Inr rendered \<Rightarrow>
             (let entry = \<lparr>entry_name = ''page_'' @ padStart0 3 (showNat (i + 1)) @ ''.''
                              @ format_name format,
                            entry_data = rendered\<rparr>
              in case render_loop env jobId format dpi count (Suc i) rest (entries @ [entry]) of
                   (evs, r) \<Rightarrow> (ev # evs, r)))"

definition pdf2img ::
  "'pg env \<Rightarrow> qpdf_state \<Rightarrow> string \<Rightarrow> input_file \<Rightarrow> img_format \<Rightarrow> nat
    \<Rightarrow> WorkerEvent list \<times> qpdf_state \<times> string option" where
  "pdf2img env st jobId file format dpi =
     (let ev0 = postProgress jobId 5 (''Initializing MuPDF (WASM)'' @ hellip)
      in case mupdf_import env of
           Some m \<Rightarrow> ([ev0], st, Some m)
         | None \<Rightarrow>
            (case decryptPdf env st (file_bytes file) (file_password file)
                    (Some (file_name file)) of
               (st1, Inl m) \<Rightarrow> ([ev0], st1, Some m)
             | (st1, Inr unlocked) \<Rightarrow>
                 (case openDocument env unlocked of
                    Inl m \<Rightarrow> ([ev0], st1, Some m)
                  | Inr doc \<Rightarrow>
                      if length doc = 0 then ([ev0], st1, Some ''PDF has no pages.'')
                      else
                        (case render_loop env jobId format dpi (length doc) 0 doc [] of
                           (evs, Inl m) \<Rightarrow> (ev0 # evs, st1, Some m)
                         | (evs, Inr entries) \<Rightarrow>
                             (ev0 # evs @ [postProgress jobId 85 (''Packaging ZIP'' @ hellip),
                                postProgress jobId 100 ''Done'',
                                postResult jobId
                                  (base_name (file_name file) @ ''_images_''
                                     @ format_name format @ ''.zip'')
                                  (buildZip (clock env) entries) ''application/zip''],
                              st1, None)))))"

text \<open>\<open>self.onmessage\<close>: the dispatch, and the \<open>catch\<close> that posts the error.\<close>

definition onmessage ::
  "'pg env \<Rightarrow> qpdf_state \<Rightarrow> int WorkerRequest \<Rightarrow> WorkerEvent list \<times> qpdf_state" where
  "onmessage env st msg =
     (case msg of
        Unknown jobId \<Rightarrow>
          ([postError (case jobId of None \<Rightarrow> ''unknown'' | Some j \<Rightarrow> j)
              ''Unknown worker request''], st)
      | _ \<Rightarrow>
          (let jobId = (case msg of Merge j files \<Rightarrow> j | Split j file pages ranges output \<Rightarrow> j
                          | Compress j file level \<Rightarrow> j | Pdf2img j file format dpi \<Rightarrow> j
                          | Unknown j \<Rightarrow> [])
           in case (case msg of
                      Merge j files \<Rightarrow> merge env st j files
                    | Split j file pages ranges output \<Rightarrow> split env st j file pages ranges output
                    | Compress j file level \<Rightarrow> compress env st j file level
                    | Pdf2img j file format dpi \<Rightarrow> pdf2img env st j file format dpi
                    | Unknown j \<Rightarrow> ([], st, None)) of
                (evs, st1, None) \<Rightarrow> (evs, st1)
              | (evs, st1, Some m) \<Rightarrow> (evs @ [postError jobId m], st1)))"

section \<open>The requester (main.ts)\<close>

text \<open>
  White space is the ASCII white space (tab, line feed, vertical tab, form feed, carriage
  return, space); the other Unicode spaces that \<open>trim\<close> and \<open>\s\<close> also accept are not
  modelled.
\<close>

definition is_space :: "char \<Rightarrow> bool" where
  "is_space c = (c \<in> set [CHR 0x09, CHR 0x0A, CHR 0x0B, CHR 0x0C, CHR 0x0D, CHR 0x20])"

definition is_digit :: "char \<Rightarrow> bool" where
  "is_digit c = (c \<in> set ''0123456789'')"

definition trim :: "string \<Rightarrow> string" where
  "trim s = rev (dropWhile is_space (rev (dropWhile is_space s)))"

text \<open>\<open>s.split(sep)\<close> at the characters \<open>sep\<close>: the empty string gives one empty piece.\<close>

fun split_at :: "(char \<Rightarrow> bool) \<Rightarrow> string \<Rightarrow> string list" where
  "split_at sep [] = [[]]"
| "split_at sep (c # cs) =
     (if sep c then [] # split_at sep cs
      else case split_at sep cs of
             [] \<Rightarrow> [[c]]
           | w # ws \<Rightarrow> (c # w) # ws)"

text \<open>
  \<open>p.match(/^([0-9]+)\s*-\s*([0-9]+)$/)\<close>: the two groups, if the pattern matches. Digits,
  white space and the hyphen are disjoint, so the greedy reading is the only one.
\<close>

definition match_range :: "string \<Rightarrow> (string \<times> string) option" where
  "match_range p =
     (let a = takeWhile is_digit p
      in case dropWhile is_space (dropWhile is_digit p) of
           [] \<Rightarrow> None
         | c # r \<Rightarrow>
             (let b = dropWhile is_space r
              in if a \<noteq> [] \<and> c = CHR ''-'' \<and> b \<noteq> [] \<and> list_all is_digit b
                 then Some (a, b) else None))"

text \<open>
  \<open>Number(s)\<close> on a trimmed, non-empty string, after the grammar of string numeric
  literals: an optionally signed decimal literal or \<open>Infinity\<close>, or an unsigned binary,
  octal or hexadecimal integer. The value of a literal is the exact rational it denotes:
  the rounding to the nearest double, with its overflow to infinity and underflow to
  zero, is not modelled.
\<close>

datatype js_number = NaN | PlusInfinity | MinusInfinity | Num rat

definition digit_value :: "char \<Rightarrow> nat" where
  "digit_value c =
     (let n = (of_char c :: nat)
      in if 48 \<le> n \<and> n \<le> 57 then n - 48
         else if 97 \<le> n \<and> n \<le> 102 then n - 87
         else if 65 \<le> n \<and> n \<le> 70 then n - 55
         else 0)"

definition is_digit_of :: "nat \<Rightarrow> char \<Rightarrow> bool" where
  "is_digit_of base c =
     ((is_digit c \<or> of_char c \<in> {97 .. (102::nat)} \<or> of_char c \<in> {65 .. (70::nat)})
      \<and> digit_value c < base)"

definition digits_value :: "nat \<Rightarrow> string \<Rightarrow> nat" where
  "digits_value base s = foldl (\<lambda>acc c. acc * base + digit_value c) 0 s"

definition exponent_part :: "string \<Rightarrow> int option" where
  "exponent_part r =
     (case r of
        [] \<Rightarrow> Some 0
      | c # ds \<Rightarrow>
          if c = CHR ''e'' \<or> c = CHR ''E'' then
            (let (sign, ds') =
                   (case ds of
                      [] \<Rightarrow> (1, [])
                    | x # xs \<Rightarrow>
                        if x = CHR ''+'' then (1, xs)
                        else if x = CHR ''-'' then (- 1, xs)
                        else (1, ds))
             in if ds' \<noteq> [] \<and> list_all is_digit ds'
                then Some (sign * int (digits_value 10 ds')) else None)
          else None)"

definition pow10 :: "int \<Rightarrow> rat" where
  "pow10 e = (if 0 \<le> e then 10 ^ nat e else 1 / 10 ^ nat (- e))"

definition unsigned_decimal :: "string \<Rightarrow> js_number" where
  "unsigned_decimal s =
     (if s = ''Infinity'' then PlusInfinity
      else
        (let ip = takeWhile is_digit s;
             r1 = dropWhile is_digit s;
             (fp, r2) =
               (case r1 of
                  [] \<Rightarrow> ([], [])
                | c # r \<Rightarrow>
                    if c = CHR ''.'' then (takeWhile is_digit r, dropWhile is_digit r)
                    else ([], r1))
         in if ip = [] \<and> fp = [] then NaN
            else case exponent_part r2 of
                   None \<Rightarrow> NaN
                 | Some e \<Rightarrow>
                     Num ((of_nat (digits_value 10 ip)
                           + of_nat (digits_value 10 fp) / 10 ^ length fp) * pow10 e)))"

definition non_decimal :: "string \<Rightarrow> js_number option" where
  "non_decimal s =
     (case s of
        z # x # ds \<Rightarrow>
          (let base = (if x = CHR ''b'' \<or> x = CHR ''B'' then 2
                       else if x = CHR ''o'' \<or> x = CHR ''O'' then 8
                       else if x = CHR ''x'' \<or> x = CHR ''X'' then 16
                       else 0)
           in if z = CHR ''0'' \<and> base \<noteq> 0 then
                Some (if ds \<noteq> [] \<and> list_all (is_digit_of base) ds
                      then Num (of_nat (digits_value base ds)) else NaN)
              else None)
      | _ \<Rightarrow> None)"

definition negate :: "js_number \<Rightarrow> js_number" where
  "negate n =
     (case n of
        NaN \<Rightarrow> NaN
      | PlusInfinity \<Rightarrow> MinusInfinity
      | MinusInfinity \<Rightarrow> PlusInfinity
      | Num r \<Rightarrow> Num (- r))"

definition Number :: "string \<Rightarrow> js_number" where
  "Number s =
     (case non_decimal s of
        Some n \<Rightarrow> n
      | None \<Rightarrow>
          (case s of
             [] \<Rightarrow> Num 0
           | c # r \<Rightarrow>
               if c = CHR ''+'' then unsigned_decimal r
               else if c = CHR ''-'' then negate (unsigned_decimal r)
               else unsigned_decimal s))"

text \<open>
  The body of the loop of \<open>parsePageList\<close>: what one piece of the input pushes. The two
  ends of a range are strings of digits, read exactly, and the loop counts from the lower
  to the higher in exact integers (a double stops counting at \<open>2 ^ 53\<close>; ranges that far
  are not modelled).
\<close>

definition parse_part :: "string \<Rightarrow> rat list" where
  "parse_part part =
     (let p = trim part
      in if p = [] then []
         else case match_range p of
                Some (m1, m2) \<Rightarrow>
                  (let a = digits_value 10 m1; b = digits_value 10 m2;
                       lo = min a b; hi = max a b
                   in map of_nat [lo ..< Suc hi])
              | None \<Rightarrow>
                  (case Number p of
                     Num n \<Rightarrow> if 0 < n then [n] else []
                   | _ \<Rightarrow> []))"

definition parsePageList :: "string \<Rightarrow> rat list" where
  "parsePageList input =
     sort (uniq (concat (map parse_part (split_at (\<lambda>c. c = CHR '','') input))))"

definition parsePageGroups :: "string \<Rightarrow> rat list \<times> rat list list" where
  "parsePageGroups input =
     (let groups =
            filter (\<lambda>l. l \<noteq> [])
              (map (\<lambda>chunk. parsePageList (trim chunk))
                 (filter (\<lambda>chunk. trim chunk \<noteq> [])
                    (split_at (\<lambda>c. c = CHR '';'' \<or> c = CHR 0x0A) input)))
      in (sort (uniq (concat groups)), groups))"

datatype ToolId = MergeTool | SplitTool | CompressTool | Pdf2imgTool

definition tool_title :: "ToolId \<Rightarrow> string" where
  "tool_title t =
     (case t of
        MergeTool \<Rightarrow> ''Merge PDFs''
      | SplitTool \<Rightarrow> ''Split PDF''
      | CompressTool \<Rightarrow> ''Compress PDF''
      | Pdf2imgTool \<Rightarrow> ''PDF '' @ [CHR 0xE2, CHR 0x86, CHR 0x92] @ '' Image'')"

datatype JobStatus = Queued | Running | Done | Failed

record Job =
  job_id :: string
  job_toolId :: ToolId
  job_toolTitle :: string
  job_createdAt :: nat
  job_status :: JobStatus
  job_progress :: nat
  job_inputCount :: nat
  job_error :: "string option"

text \<open>A chosen \<open>File\<close>: its name, and the bytes \<open>arrayBuffer()\<close> resolves to or the
  message it rejects with.\<close>

record chosen_file =
  chosen_name :: string
  arrayBuffer :: "string + bytes"

record ui_state =
  files :: "chosen_file list"
  jobs :: "Job list"
  activeTool :: ToolId
  compressLevel :: level
  splitPages :: string
  splitOutput :: output_mode
  imgFormat :: img_format
  imgDpi :: nat

definition readFileBytes :: "chosen_file \<Rightarrow> string + input_file" where
  "readFileBytes f =
     (case arrayBuffer f of
        Inl m \<Rightarrow> Inl m
      | Inr b \<Rightarrow> Inr \<lparr>file_name = chosen_name f, file_bytes = b, file_password = None\<rparr>)"

text \<open>\<open>Promise.all\<close> over the files; of several failing reads the first in the list is
  taken to reject first.\<close>

fun readAll :: "chosen_file list \<Rightarrow> string + input_file list" where
  "readAll [] = Inr []"
| "readAll (f # fs) =
     (case readFileBytes f of
        Inl m \<Rightarrow> Inl m
      | Inr x \<Rightarrow> (case readAll fs of Inl m \<Rightarrow> Inl m | Inr xs \<Rightarrow> Inr (x # xs)))"

text \<open>The \<open>try\<close> block of \<open>runJob\<close>: the request posted to the worker, or the message of
  the error thrown while the files are read. It runs with at least one file chosen.\<close>

definition build_request :: "ui_state \<Rightarrow> string \<Rightarrow> string + rat WorkerRequest" where
  "build_request ui jobId =
     (case activeTool ui of
        MergeTool \<Rightarrow>
          (case readAll (files ui) of Inl m \<Rightarrow> Inl m | Inr payload \<Rightarrow> Inr (Merge jobId payload))
      | SplitTool \<Rightarrow>
          (case parsePageGroups (splitPages ui) of
             (flat, groups) \<Rightarrow>
               (case readFileBytes (hd (files ui)) of
                  Inl m \<Rightarrow> Inl m
                | Inr f \<Rightarrow>
                    Inr (Split jobId f flat (if groups = [] then [flat] else groups)
                           (splitOutput ui))))
      | CompressTool \<Rightarrow>
          (case readFileBytes (hd (files ui)) of
             Inl m \<Rightarrow> Inl m
           | Inr f \<Rightarrow> Inr (Compress jobId f (compressLevel ui)))
      | Pdf2imgTool \<Rightarrow>
          (case readFileBytes (hd (files ui)) of
             Inl m \<Rightarrow> Inl m
           | Inr f \<Rightarrow> Inr (Pdf2img jobId f (imgFormat ui) (imgDpi ui))))"

text \<open>
  \<open>runJob\<close>, given the id that \<open>uid()\<close> draws and the time \<open>Date.now()\<close> shows: the alert it
  raises, the job list it leaves and the request it posts to the worker.
\<close>

definition runJob ::
  "ui_state \<Rightarrow> string \<Rightarrow> nat \<Rightarrow> string option \<times> Job list \<times> rat WorkerRequest option" where
  "runJob ui jobId now =
     (if length (files ui) = 0 then (Some ''Add PDFs first.'', jobs ui, None)
      else if activeTool ui = MergeTool \<and> length (files ui) < 2
        then (Some ''Merge needs at least 2 PDFs.'', jobs ui, None)
      else
        (let job = \<lparr>job_id = jobId, job_toolId = activeTool ui,
                     job_toolTitle = tool_title (activeTool ui), job_createdAt = now,
                     job_status = Queued, job_progress = 0,
                     job_inputCount = length (files ui), job_error = None\<rparr>;
             jobs1 = job # jobs ui
         in case build_request ui jobId of
              Inr req \<Rightarrow> (None, jobs1, Some req)
            | Inl m \<Rightarrow>
                (None,
                 map (\<lambda>j. if job_id j = jobId then j\<lparr>job_status := Failed, job_error := Some m\<rparr>
                           else j) jobs1,
                 None)))"

section \<open>Event traces\<close>

definition is_progress :: "WorkerEvent \<Rightarrow> bool" where
  "is_progress e = (case e of Progress j p n \<Rightarrow> True | _ \<Rightarrow> False)"

definition is_terminal :: "WorkerEvent \<Rightarrow> bool" where
  "is_terminal e = (case e of Progress j p n \<Rightarrow> False | _ \<Rightarrow> True)"

definition percent :: "WorkerEvent \<Rightarrow> nat" where
  "percent e = (case e of Progress j p n \<Rightarrow> p | _ \<Rightarrow> 100)"

text \<open>The job id under which the events of a request are posted.\<close>

fun request_jobId :: "'n WorkerRequest \<Rightarrow> string" where
  "request_jobId (Merge j fs) = j"
| "request_jobId (Split j f pages ranges output) = j"
| "request_jobId (Compress j f l) = j"
| "request_jobId (Pdf2img j f format dpi) = j"
| "request_jobId (Unknown None) = ''unknown''"
| "request_jobId (Unknown (Some j)) = j"

text \<open>Progress events of job \<open>j\<close> only, with percentages that do not decrease and lie
  between \<open>lo\<close> and \<open>hi\<close>.\<close>

fun progress_run :: "string \<Rightarrow> nat \<Rightarrow> nat \<Rightarrow> WorkerEvent list \<Rightarrow> bool" where
  "progress_run j lo hi [] = True"
| "progress_run j lo hi (Progress j' p n # es) =
     (j' = j \<and> lo \<le> p \<and> p \<le> hi \<and> progress_run j p hi es)"
| "progress_run j lo hi (Result j' outputName outputBytes mime # es) = False"
| "progress_run j lo hi (Error j' m # es) = False"

text \<open>A complete trace of job \<open>j\<close>: such progress events up to 100, then one result or
  error, then nothing.\<close>

fun job_trace :: "string \<Rightarrow> nat \<Rightarrow> WorkerEvent list \<Rightarrow> bool" where
  "job_trace j lo [] = False"
| "job_trace j lo (Progress j' p n # es) = (j' = j \<and> lo \<le> p \<and> p \<le> 100 \<and> job_trace j p es)"
| "job_trace j lo (Result j' outputName outputBytes mime # es) = (j' = j \<and> es = [])"
| "job_trace j lo (Error j' m # es) = (j' = j \<and> es = [])"

definition is_error :: "WorkerEvent \<Rightarrow> bool" where
  "is_error e = (case e of Error j m \<Rightarrow> True | _ \<Rightarrow> False)"

text \<open>What an operation has posted when it returns or throws: a complete trace but for
  the error event that the dispatch adds after a throw.\<close>

definition op_trace :: "string \<Rightarrow> WorkerEvent list \<times> qpdf_state \<times> string option \<Rightarrow> bool" where
  "op_trace j res =
     (case res of
        (evs, st, None) \<Rightarrow> job_trace j 0 evs
      | (evs, st, Some m) \<Rightarrow> progress_run j 0 100 evs)"

text \<open>The pages of a group that are pages of a document of \<open>pageCount\<close> pages, in
  ascending order without repetition (page numbers count from 1).\<close>

definition kept_pages :: "nat \<Rightarrow> int list \<Rightarrow> int list" where
  "kept_pages pageCount g =
     sort (uniq (filter (\<lambda>p. 1 \<le> p \<and> p \<le> int pageCount) g))"

section \<open>Sample collaborators\<close>

text \<open>
  Concrete collaborators on which the operations are run: a document is the list of its
  bytes, one page each; \<open>copy_run\<close> is a rewrite engine that copies its input file to its
  output file, \<open>decrypt_only_run\<close> one that does so for \<open>--decrypt\<close> and otherwise writes
  nothing, \<open>refusing_run\<close> one that throws the given message.
\<close>

definition copy_run :: "string list \<Rightarrow> fs \<Rightarrow> string option \<times> fs" where
  "copy_run args store = (None, store(last args := store (last (butlast args))))"

definition decrypt_only_run :: "string list \<Rightarrow> fs \<Rightarrow> string option \<times> fs" where
  "decrypt_only_run args store =
     (if hd args = ''--decrypt'' then copy_run args store else (None, store))"

definition refusing_run :: "string \<Rightarrow> string list \<Rightarrow> fs \<Rightarrow> string option \<times> fs" where
  "refusing_run msg args store = (Some msg, store)"

definition sample_date :: js_date where
  "sample_date = \<lparr>getHours = 13, getMinutes = 7, getSeconds = 31, getFullYear = 2024,
                   getMonth = 1, getDate = 29\<rparr>"

definition sample_env :: "(string list \<Rightarrow> fs \<Rightarrow> string option \<times> fs) \<Rightarrow> byte env" where
  "sample_env run =
     \<lparr>qpdf_init = None, callMain = run, fs_error = ''FS error'', pdf_load = Inr,
      pdf_save = Inr, copy_error = ''no such page'', mupdf_import = None, openDocument = Inr,
      render = (\<lambda>page format dpi. Inr [page]), clock = (\<lambda>i. sample_date)\<rparr>"

definition fresh :: qpdf_state where
  "fresh = \<lparr>qpdfRunId = 0, FS = Map.empty\<rparr>"

definition sample_file :: input_file where
  "sample_file = \<lparr>file_name = ''a.pdf'', file_bytes = [1, 2, 3, 4, 5], file_password = None\<rparr>"

definition failing_save_env :: "byte env" where
  "failing_save_env = (sample_env copy_run)\<lparr>pdf_save := (\<lambda>d. Inl ''save failed'')\<rparr>"

text \<open>A requester with one file chosen for merging, its other settings as at start-up.\<close>

definition sample_choice :: chosen_file where
  "sample_choice = \<lparr>chosen_name = ''a.pdf'', arrayBuffer = Inr [1, 2, 3, 4, 5]\<rparr>"

definition sample_ui :: ui_state where
  "sample_ui = \<lparr>files = [sample_choice], jobs = [], activeTool = MergeTool,
                 compressLevel = Balanced, splitPages = ''1'', splitOutput = Single,
                 imgFormat = Png, imgDpi = 150\<rparr>"

section \<open>Properties\<close>

subsection \<open>The empty archive\<close>

lemma buildZip_no_entries:
  "buildZip now [] =
     [0x50, 0x4b, 0x05, 0x06,  0, 0,  0, 0,  0, 0,  0, 0,  0, 0, 0, 0,  0, 0, 0, 0,  0, 0]"
  by (simp add: buildZip_def concatBytes_def end_record_def setUint16_def setUint32_def)

text \<open>
  C8. The archive encoder applied to the empty entry list returns exactly the 22 bytes of
  one end-of-directory record: the signature 0x06054b50, disk numbers 0, the entry count 0
  in both count fields, the directory size 0, the directory offset 0 and an empty comment,
  every field little-endian; whatever the clock shows.
\<close>

theorem buildZip_empty:
  "buildZip now [] =
     [0x50, 0x4b, 0x05, 0x06,  0, 0,  0, 0,  0, 0,  0, 0,  0, 0, 0, 0,  0, 0, 0, 0,  0, 0]"
  by (rule buildZip_no_entries)

subsection \<open>The compression tier\<close>

lemma levelArgs_const: "levelArgs l = [''--recompress-flate'']"
  by (cases l) (simp_all add: levelArgs_def)

text \<open>
  C7. For every input document and every state of the engine, shrinking with any two of
  the three tiers passes the same arguments to the rewrite engine and gives the same
  events, the same final state and the same outcome: the tier has no effect.
\<close>

theorem compress_tier_irrelevant:
  "compress_args l1 rid = compress_args l2 rid \<and>
   compress env st jobId f l1 = compress env st jobId f l2"
  unfolding compress_def compress_args_def levelArgs_const by simp

subsection \<open>The page-range parser\<close>

text \<open>
  C2, at the input \<open>0-2\<close>: the parser expands the range without looking at the sign of
  its members and returns the page numbers 0, 1, 2, of which 0 is not strictly positive.
  The branch of single tokens tests \<open>n > 0\<close>; the branch of ranges has no such test.
\<close>

theorem parsePageList_range_from_zero: "parsePageList ''0-2'' = [0, 1, 2]"
  by code_simp

lemma parsePageList_fraction: "parsePageList ''1.5'' = [3 / 2]"
  by code_simp

lemma parsePageList_examples:
  "parsePageList ''3,1,2'' = [1, 2, 3]" "parsePageList ''5-3'' = [3, 4, 5]"
  "parsePageList ''abc,,2'' = [2]" "parsePageList [] = []"
  by code_simp+

lemma distinct_uniq: "distinct (uniq xs)"
  by (simp add: uniq_def)

lemma set_uniq: "set (uniq xs) = set xs"
  by (simp add: uniq_def)

lemma parsePageList_ascending: "sorted_wrt (<) (parsePageList input)"
  by (simp add: parsePageList_def strict_sorted_iff distinct_uniq)

subsection \<open>Cleaning the working storage\<close>

text \<open>
  \<open>decryptPdf\<close> releases its two files on every path, by its \<open>finally\<close> block: if the
  input file it wrote is still there when the \<open>try\<close> block ends, whether by returning or
  by throwing, neither file is in the working storage afterwards.
\<close>

lemma decryptPdf_removes_its_files:
  assumes init: "qpdf_init env = None"
    and kept: "fst (decrypt_try env (qpdfRunId st + 1) content password (FS st))
                 (inPath (qpdfRunId st + 1)) \<noteq> None"
  shows "FS (fst (decryptPdf env st content password label)) (inPath (qpdfRunId st + 1)) = None
       \<and> FS (fst (decryptPdf env st content password label)) (outPath (qpdfRunId st + 1)) = None"
proof (cases "decrypt_try env (qpdfRunId st + 1) content password (FS st)")
  case (Pair fs2 r)
  with kept obtain b where "fs2 (inPath (Suc (qpdfRunId st))) = Some b" by auto
  with Pair init show ?thesis
    by (simp add: decryptPdf_def cleanup_def)
qed

text \<open>
  C3, at a run of \<open>compress\<close> in which the rewrite engine writes no output file: the
  operation throws before it reaches its two \<open>unlink\<close> calls, so the input file it wrote,
  \<open>/in/in_2.pdf\<close>, stays in the working storage. (The decryption that the same call
  makes first did remove its files \<open>/in/in_1.pdf\<close> and \<open>/out/out_1.pdf\<close>.)
\<close>

theorem compress_failure_keeps_input:
  "(case compress (sample_env decrypt_only_run) fresh ''job'' sample_file Balanced of
      (evs, st, thrown) \<Rightarrow>
        thrown = Some ''qpdf-wasm returned no output (out.pdf missing).'' \<and>
        FS st ''/in/in_2.pdf'' = Some [1, 2, 3, 4, 5] \<and>
        FS st ''/in/in_1.pdf'' = None \<and> FS st ''/out/out_1.pdf'' = None)"
  by code_simp

subsection \<open>Running the sample collaborators\<close>

lemma sample_env_fields [simp]:
  "qpdf_init (sample_env run) = None" "callMain (sample_env run) = run"
  "fs_error (sample_env run) = ''FS error''" "pdf_load (sample_env run) = Inr"
  "pdf_save (sample_env run) = Inr" "mupdf_import (sample_env run) = None"
  "openDocument (sample_env run) = Inr" "clock (sample_env run) = (\<lambda>i. sample_date)"
  "copy_error (sample_env run) = ''no such page''"
  "render (sample_env run) = (\<lambda>page format dpi. Inr [page])"
  by (simp_all add: sample_env_def)

lemma decryptPdf_sample:
  "decryptPdf (sample_env copy_run) fresh (file_bytes sample_file)
     (file_password sample_file) (Some (file_name sample_file))
   = (\<lparr>qpdfRunId = 1, FS = Map.empty\<rparr>, Inr [1, 2, 3, 4, 5])"
  by (simp add: decryptPdf_def decrypt_try_def fresh_def writeFile_def readFile_def
        inPath_def outPath_def copy_run_def cleanup_def sample_file_def)

subsection \<open>The dispatch\<close>

lemma onmessage_simps:
  "onmessage env st (Merge j fs) =
     (case merge env st j fs of
        (evs, st1, None) \<Rightarrow> (evs, st1) | (evs, st1, Some m) \<Rightarrow> (evs @ [postError j m], st1))"
  "onmessage env st (Split j f pages ranges output) =
     (case split env st j f pages ranges output of
        (evs, st1, None) \<Rightarrow> (evs, st1) | (evs, st1, Some m) \<Rightarrow> (evs @ [postError j m], st1))"
  "onmessage env st (Compress j f l) =
     (case compress env st j f l of
        (evs, st1, None) \<Rightarrow> (evs, st1) | (evs, st1, Some m) \<Rightarrow> (evs @ [postError j m], st1))"
  "onmessage env st (Pdf2img j f format dpi) =
     (case pdf2img env st j f format dpi of
        (evs, st1, None) \<Rightarrow> (evs, st1) | (evs, st1, Some m) \<Rightarrow> (evs @ [postError j m], st1))"
  "onmessage env st (Unknown jid) =
     ([postError (request_jobId (Unknown jid :: int WorkerRequest)) ''Unknown worker request''], st)"
  by (simp_all add: onmessage_def split: option.splits)

subsection \<open>Failures of the decryption\<close>

lemma message_kinds_differ: "protectedMsg label \<noteq> openFailedMsg label' msg"
  by (simp add: protectedMsg_def openFailedMsg_def dquote_def)

lemma decryptPdf_failure:
  assumes "qpdf_init env = None"
    and "snd (decrypt_try env (qpdfRunId st + 1) content password (FS st)) = Inl msg"
  shows "snd (decryptPdf env st content password label) =
           Inl (if mentions_password msg then protectedMsg label else openFailedMsg label msg)"
proof (cases "decrypt_try env (qpdfRunId st + 1) content password (FS st)")
  case (Pair fs2 r)
  with assms show ?thesis by (simp add: decryptPdf_def Let_def)
qed

lemma split_decrypt_failure:
  assumes "decryptPdf env st (file_bytes f) (file_password f) (Some (file_name f)) = (st1, Inl m)"
  shows "onmessage env st (Split j f pages ranges output) =
           ([Progress j 5 (''Loading PDF'' @ hellip), Error j m], st1)"
  by (simp add: onmessage_simps split_def assms postError_def postProgress_def)

lemma merge_decrypt_failure:
  assumes "decryptPdf env st (file_bytes f) (file_password f) (Some (file_name f)) = (st1, Inl m)"
  shows "onmessage env st (Merge j (f # rest)) =
           ([Progress j 5 (''Loading PDFs'' @ hellip),
             Progress j 10 (''Importing '' @ file_name f @ hellip), Error j m], st1)"
  by (simp add: onmessage_simps merge_def assms postError_def postProgress_def)

lemma compress_decrypt_failure:
  assumes "qpdf_init env = None"
     and "decryptPdf env st (file_bytes f) (file_password f) (Some (file_name f)) = (st1, Inl m)"
  shows "onmessage env st (Compress j f l) =
           ([Progress j 5 (''Initializing qpdf (WASM)'' @ hellip), Error j m], st1)"
  by (simp add: onmessage_simps compress_def assms postError_def postProgress_def)

lemma pdf2img_decrypt_failure:
  assumes "mupdf_import env = None"
     and "decryptPdf env st (file_bytes f) (file_password f) (Some (file_name f)) = (st1, Inl m)"
  shows "onmessage env st (Pdf2img j f format dpi) =
           ([Progress j 5 (''Initializing MuPDF (WASM)'' @ hellip), Error j m], st1)"
  by (simp add: onmessage_simps pdf2img_def assms postError_def postProgress_def)



subsection \<open>Extraction into an archive\<close>

text \<open>
  C10. In an extraction with output mode \<open>zip\<close>, let the document decrypt and load, the
  flat selection keep at least one page of it, and groups be supplied of which every one
  loses all its pages against the page count. Then the job posts the progress events 5,
  85, 100 and ends with a result, not an error: the archive \<open>base_pages.zip\<close>, whose
  payload is the encoder's output for no entries, 22 bytes long.
\<close>

theorem archive_of_empty_groups:
  assumes dec: "decryptPdf env st (file_bytes f) (file_password f) (Some (file_name f))
                  = (st1, Inr unlocked)"
    and load: "pdf_load env unlocked = Inr src"
    and flat: "normalize_pages (length src) pages \<noteq> []"
    and given: "ranges \<noteq> []"
    and empty: "\<forall>r \<in> set ranges. normalize_pages (length src) r = []"
  shows "onmessage env st (Split j f pages ranges Zip) =
           ([Progress j 5 (''Loading PDF'' @ hellip),
             Progress j 85 (''Creando ZIP'' @ hellip),
             Progress j 100 ''Done'',
             Result j (base_name (file_name f) @ ''_pages.zip'') (buildZip (clock env) [])
               ''application/zip''], st1)
         \<and> length (buildZip (clock env) []) = 22"
proof -
  have "filter (\<lambda>r. r \<noteq> []) (map (normalize_pages (length src)) ranges) = []"
    using empty by (simp add: filter_empty_conv)
  then have "split_zip env j f src pages ranges =
     ([Progress j 85 (''Creando ZIP'' @ hellip), Progress j 100 ''Done'',
       Result j (base_name (file_name f) @ ''_pages.zip'') (buildZip (clock env) [])
               ''application/zip''], None)"
    using given by (simp add: split_zip_def postProgress_def postResult_def)
  then show ?thesis
    using flat by (simp add: onmessage_simps split_def dec load postProgress_def buildZip_no_entries)
qed

theorem archive_of_empty_groups_witness:
  "onmessage (sample_env copy_run) fresh (Split ''job'' sample_file [1] [[9], [7, 8]] Zip) =
           ([Progress ''job'' 5 (''Loading PDF'' @ hellip),
             Progress ''job'' 85 (''Creando ZIP'' @ hellip),
             Progress ''job'' 100 ''Done'',
             Result ''job'' (base_name (file_name sample_file) @ ''_pages.zip'')
               (buildZip (clock (sample_env copy_run)) [])
               ''application/zip''], \<lparr>qpdfRunId = 1, FS = Map.empty\<rparr>)
         \<and> length (buildZip (clock (sample_env copy_run)) []) = 22"
proof -
  have load: "pdf_load (sample_env copy_run) [1, 2, 3, 4, 5] = Inr [1, 2, 3, 4, 5]"
    by simp
  have flat: "normalize_pages (length [1, 2, 3, 4, 5 :: byte]) [1] \<noteq> []"
    by code_simp
  have given: "[[9], [7, 8 :: int]] \<noteq> []"
    by simp
  have empty: "\<forall>r \<in> set [[9], [7, 8]]. normalize_pages (length [1, 2, 3, 4, 5 :: byte]) r = []"
    by code_simp
  show ?thesis
    by (rule archive_of_empty_groups [OF decryptPdf_sample load flat given empty])
qed

subsection \<open>The sequence of events of a job\<close>

lemma progress_run_mono:
  "progress_run j lo hi evs \<Longrightarrow> lo' \<le> lo \<Longrightarrow> hi \<le> hi' \<Longrightarrow> progress_run j lo' hi' evs"
proof (induction evs arbitrary: lo lo')
  case Nil
  then show ?case by simp
next
  case (Cons e evs)
  then show ?case by (cases e) auto
qed

lemma progress_run_append:
  "progress_run j lo hi evs \<Longrightarrow> progress_run j hi hi' evs' \<Longrightarrow> lo \<le> hi \<Longrightarrow> hi \<le> hi'
     \<Longrightarrow> progress_run j lo hi' (evs @ evs')"
proof (induction evs arbitrary: lo)
  case Nil
  then show ?case by (auto intro: progress_run_mono)
next
  case (Cons e evs)
  then show ?case by (cases e) auto
qed

lemma job_trace_terminal:
  "progress_run j lo 100 evs \<Longrightarrow> is_terminal t \<Longrightarrow> event_jobId t = j
     \<Longrightarrow> job_trace j lo (evs @ [t])"
proof (induction evs arbitrary: lo)
  case Nil
  then show ?case by (cases t) (auto simp: is_terminal_def)
next
  case (Cons e evs)
  then show ?case by (cases e) auto
qed

lemma percent_bound:
  assumes "i < n"
  shows "(i * k) div n \<le> (k::nat)"
proof -
  have "i * k \<le> n * k" using assms by simp
  then have "(i * k) div n \<le> (n * k) div n" by (rule div_le_mono)
  with assms show ?thesis by simp
qed

lemma percent_mono: "(i * k) div n \<le> (Suc i * k) div (n::nat)"
  by (simp add: div_le_mono)

lemma merge_loop_progress:
  "merge_loop env j n i fs st out = (evs, st', r) \<Longrightarrow> i + length fs = n \<Longrightarrow>
     progress_run j (10 + (i * 60) div n) 70 evs"
proof (induction fs arbitrary: i st out evs st' r)
  case Nil
  then show ?case by simp
next
  case (Cons f rest)
  then have lt: "i < n" and next_ok: "Suc i + length rest = n" by auto
  have b: "10 + (i * 60) div n \<le> 70" using percent_bound [OF lt, of 60] by simp
  have m: "10 + (i * 60) div n \<le> 10 + (Suc i * 60) div n" using percent_mono [of i 60 n] by simp
  have ih: "\<And>st out evs st' r. merge_loop env j n (Suc i) rest st out = (evs, st', r)
              \<Longrightarrow> progress_run j (10 + (i * 60) div n) 70 evs"
    using Cons.IH [OF _ next_ok] m progress_run_mono by blast
  show ?case
    using b Cons.prems(1)
    by (auto simp: postProgress_def Let_def split: prod.splits sum.splits dest: ih)
qed

lemma split_loop_progress:
  "split_loop env j base src n i rs entries = (evs, r) \<Longrightarrow> i + length rs = n \<Longrightarrow>
     progress_run j (10 + (i * 60) div n) 70 evs"
proof (induction rs arbitrary: i entries evs r)
  case Nil
  then show ?case by simp
next
  case (Cons rng rest)
  then have lt: "i < n" and next_ok: "Suc i + length rest = n" by auto
  have b: "10 + (i * 60) div n \<le> 70" using percent_bound [OF lt, of 60] by simp
  have m: "10 + (i * 60) div n \<le> 10 + (Suc i * 60) div n" using percent_mono [of i 60 n] by simp
  have ih: "\<And>entries evs r. split_loop env j base src n (Suc i) rest entries = (evs, r)
              \<Longrightarrow> progress_run j (10 + (i * 60) div n) 70 evs"
    using Cons.IH [OF _ next_ok] m progress_run_mono by blast
  show ?case
    using b Cons.prems(1)
    by (auto simp: postProgress_def Let_def split: prod.splits sum.splits dest: ih)
qed

lemma render_loop_progress:
  "render_loop env j format dpi n i pages entries = (evs, r) \<Longrightarrow> i + length pages = n \<Longrightarrow>
     progress_run j (10 + (i * 70) div n) 80 evs"
proof (induction pages arbitrary: i entries evs r)
  case Nil
  then show ?case by simp
next
  case (Cons page rest)
  then have lt: "i < n" and next_ok: "Suc i + length rest = n" by auto
  have b: "10 + (i * 70) div n \<le> 80" using percent_bound [OF lt, of 70] by simp
  have m: "10 + (i * 70) div n \<le> 10 + (Suc i * 70) div n" using percent_mono [of i 70 n] by simp
  have ih: "\<And>entries evs r. render_loop env j format dpi n (Suc i) rest entries = (evs, r)
              \<Longrightarrow> progress_run j (10 + (i * 70) div n) 80 evs"
    using Cons.IH [OF _ next_ok] m progress_run_mono by blast
  show ?case
    using b Cons.prems(1)
    by (auto simp: postProgress_def Let_def split: prod.splits sum.splits dest: ih)
qed

lemma job_trace_after_progress:
  "progress_run j lo hi evs \<Longrightarrow> lo \<le> hi \<Longrightarrow> hi \<le> 100 \<Longrightarrow> progress_run j hi 100 evs2 \<Longrightarrow>
     is_terminal t \<Longrightarrow> event_jobId t = j \<Longrightarrow> job_trace j lo (evs @ evs2 @ [t])"
  using job_trace_terminal [of j lo "evs @ evs2" t] progress_run_append [of j lo hi evs 100 evs2]
  by simp

lemma merge_trace: "op_trace j (merge env st j fs)"
proof (cases "merge_loop env j (length fs) 0 fs st []")
  case (fields evs st1 r)
  from merge_loop_progress [OF fields] have "progress_run j 10 70 evs" by simp
  then have run: "progress_run j 5 80 evs" by (rule progress_run_mono) simp_all
  show ?thesis
  proof (cases r)
    case (Inl m)
    with fields progress_run_mono [OF run, of 5 100] show ?thesis
      by (auto simp: op_trace_def merge_def Let_def postProgress_def)
  next
    case (Inr out)
    have p: "progress_run j 5 100 (evs @ [Progress j 80 n])" for n
      using progress_run_append [OF run, of 100 "[Progress j 80 n]"] by simp
    have t: "job_trace j 5 (evs @ [Progress j 80 n, Progress j 100 n'] @ [Result j a b c])"
      for n n' a b c
      by (rule job_trace_after_progress [OF run]) (simp_all add: is_terminal_def)
    from Inr fields p t show ?thesis
      by (simp add: op_trace_def merge_def Let_def postProgress_def postResult_def
            split: sum.splits)
  qed
qed


lemma split_zip_trace:
  "split_zip env j f src pages ranges = (evs, thrown) \<Longrightarrow>
     (case thrown of None \<Rightarrow> job_trace j 5 evs | Some m \<Rightarrow> progress_run j 5 100 evs)"
proof -
  assume a: "split_zip env j f src pages ranges = (evs, thrown)"
  define rs where "rs = filter (\<lambda>r. r \<noteq> [])
              (map (normalize_pages (length src)) (if ranges = [] then [pages] else ranges))"
  obtain evs1 r where loop:
    "split_loop env j (base_name (file_name f)) src (length rs) 0 rs [] = (evs1, r)"
    by (cases "split_loop env j (base_name (file_name f)) src (length rs) 0 rs []")
  from split_loop_progress [OF loop] have "progress_run j 10 70 evs1" by simp
  then have run: "progress_run j 5 85 evs1" by (rule progress_run_mono) simp_all
  have t: "job_trace j 5 (evs1 @ [Progress j 85 n, Progress j 100 n'] @ [Result j x y z])"
    for n n' x y z
    by (rule job_trace_after_progress [OF run]) (simp_all add: is_terminal_def)
  show ?thesis
  proof (cases r)
    case (Inl m)
    with a loop progress_run_mono [OF run, of 5 100] show ?thesis
      by (auto simp: split_zip_def Let_def rs_def)
  next
    case (Inr entries)
    with a loop t show ?thesis
      by (auto simp: split_zip_def Let_def rs_def postProgress_def postResult_def)
  qed
qed

lemma split_single_trace:
  "split_single env j src indices = (evs, thrown) \<Longrightarrow>
     (case thrown of None \<Rightarrow> job_trace j 5 evs | Some m \<Rightarrow> progress_run j 5 100 evs)"
  by (auto simp: split_single_def Let_def postProgress_def postResult_def split: sum.splits)

lemma split_trace: "op_trace j (split env st j f pages ranges output)"
proof (cases "decryptPdf env st (file_bytes f) (file_password f) (Some (file_name f))")
  case (Pair st1 unlocked)
  show ?thesis
  proof (cases unlocked)
    case (Inl m)
    with Pair show ?thesis by (simp add: op_trace_def split_def postProgress_def)
  next
    case (Inr u)
    show ?thesis
    proof (cases "pdf_load env u")
      case (Inl m)
      with Pair Inr show ?thesis by (simp add: op_trace_def split_def postProgress_def)
    next
      case load: (Inr src)
      show ?thesis
      proof (cases "normalize_pages (length src) pages = []")
        case True
        with Pair Inr load show ?thesis by (simp add: op_trace_def split_def postProgress_def)
      next
        case False
        obtain evs thrown where branch:
          "(case output of Zip \<Rightarrow> split_zip env j f src pages ranges
             | Single \<Rightarrow> split_single env j src (normalize_pages (length src) pages))
           = (evs, thrown)"
          by (cases "(case output of Zip \<Rightarrow> split_zip env j f src pages ranges
             | Single \<Rightarrow> split_single env j src (normalize_pages (length src) pages))")
        then have "case thrown of None \<Rightarrow> job_trace j 5 evs | Some m \<Rightarrow> progress_run j 5 100 evs"
          by (cases "output") (auto dest: split_zip_trace split_single_trace)
        with Pair Inr load False branch show ?thesis
          by (auto simp: op_trace_def split_def Let_def postProgress_def split: option.splits)
      qed
    qed
  qed
qed

lemma compress_trace: "op_trace j (compress env st j f l)"
  by (auto simp: op_trace_def compress_def Let_def postProgress_def postResult_def
        split: option.splits prod.splits sum.splits)

lemma pdf2img_trace: "op_trace j (pdf2img env st j f format dpi)"
proof (cases "mupdf_import env")
  case (Some m)
  then show ?thesis by (simp add: op_trace_def pdf2img_def postProgress_def)
next
  case None
  show ?thesis
  proof (cases "decryptPdf env st (file_bytes f) (file_password f) (Some (file_name f))")
    case (Pair st1 unlocked)
    show ?thesis
    proof (cases unlocked)
      case (Inl m)
      with None Pair show ?thesis by (simp add: op_trace_def pdf2img_def postProgress_def)
    next
      case (Inr u)
      show ?thesis
      proof (cases "openDocument env u")
        case (Inl m)
        with None Pair Inr show ?thesis by (simp add: op_trace_def pdf2img_def postProgress_def)
      next
        case opened: (Inr doc)
        show ?thesis
        proof (cases "doc = []")
          case True
          with None Pair Inr opened show ?thesis
            by (simp add: op_trace_def pdf2img_def postProgress_def)
        next
          case False
          obtain evs r where loop:
            "render_loop env j format dpi (length doc) 0 doc [] = (evs, r)"
            by (cases "render_loop env j format dpi (length doc) 0 doc []")
          from render_loop_progress [OF loop] have "progress_run j 10 80 evs" by simp
          then have run: "progress_run j 5 85 evs" by (rule progress_run_mono) simp_all
          have t: "job_trace j 5 (evs @ [Progress j 85 n, Progress j 100 n'] @ [Result j x y z])"
            for n n' x y z
            by (rule job_trace_after_progress [OF run]) (simp_all add: is_terminal_def)
          show ?thesis
          proof (cases r)
            case (Inl m)
            with None Pair Inr opened False loop progress_run_mono [OF run, of 5 100] show ?thesis
              by (auto simp: op_trace_def pdf2img_def postProgress_def)
          next
            case entries: (Inr es)
            with None Pair Inr opened False loop t show ?thesis
              by (auto simp: op_trace_def pdf2img_def postProgress_def postResult_def)
          qed
        qed
      qed
    qed
  qed
qed

lemma onmessage_trace: "job_trace (request_jobId msg) 0 (fst (onmessage env st msg))"
proof -
  have fin: "job_trace j 0 (fst (case res of (evs, st1, None) \<Rightarrow> (evs, st1)
               | (evs, st1, Some m) \<Rightarrow> (evs @ [postError j m], st1)))"
    if "op_trace j res" for j res
  proof (cases res)
    case (fields evs st1 thrown)
    with that show ?thesis
      by (cases thrown)
         (auto simp: op_trace_def postError_def is_terminal_def intro: job_trace_terminal)
  qed
  show ?thesis
  proof (cases msg)
    case (Merge j fs)
    then show ?thesis using fin [OF merge_trace] by (simp add: onmessage_simps)
  next
    case (Split j f pages ranges mode)
    then show ?thesis using fin [OF split_trace] by (simp add: onmessage_simps)
  next
    case (Compress j f l)
    then show ?thesis using fin [OF compress_trace] by (simp add: onmessage_simps)
  next
    case (Pdf2img j f format dpi)
    then show ?thesis using fin [OF pdf2img_trace] by (simp add: onmessage_simps)
  next
    case (Unknown jid)
    then show ?thesis by (cases jid) (simp_all add: onmessage_simps postError_def)
  qed
qed

lemma job_trace_shape:
  "job_trace j lo evs \<Longrightarrow>
     \<exists>ps t. evs = ps @ [t] \<and> list_all is_progress ps \<and> sorted (lo # map percent ps)
       \<and> list_all (\<lambda>e. percent e \<le> 100) ps
       \<and> is_terminal t \<and> list_all (\<lambda>e. event_jobId e = j) (ps @ [t])"
proof (induction evs arbitrary: lo)
  case Nil
  then show ?case by simp
next
  case (Cons e evs)
  show ?case
  proof (cases e)
    case (Progress j' p n)
    with Cons.prems have j: "j' = j" and lo: "lo \<le> p" and hi: "p \<le> 100"
      and rest: "job_trace j p evs" by auto
    from Cons.IH [OF rest] obtain ps t where
      "evs = ps @ [t]" "list_all is_progress ps" "sorted (p # map percent ps)"
      "list_all (\<lambda>e. percent e \<le> 100) ps"
      "is_terminal t" "list_all (\<lambda>e. event_jobId e = j) (ps @ [t])"
      by blast
    then have "e # evs = (e # ps) @ [t] \<and> list_all is_progress (e # ps)
       \<and> sorted (lo # map percent (e # ps)) \<and> list_all (\<lambda>e. percent e \<le> 100) (e # ps)
       \<and> is_terminal t \<and> list_all (\<lambda>e. event_jobId e = j) ((e # ps) @ [t])"
      using Progress j lo hi by (auto simp: is_progress_def percent_def)
    then show ?thesis by blast
  next
    case (Result j' a b c)
    with Cons.prems have "e # evs = [] @ [e] \<and> list_all is_progress [] \<and>
      sorted (lo # map percent []) \<and> list_all (\<lambda>e. percent e \<le> 100) [] \<and> is_terminal e
      \<and> list_all (\<lambda>e. event_jobId e = j) ([] @ [e])"
      by (auto simp: is_terminal_def)
    then show ?thesis by blast
  next
    case (Error j' m)
    with Cons.prems have "e # evs = [] @ [e] \<and> list_all is_progress [] \<and>
      sorted (lo # map percent []) \<and> list_all (\<lambda>e. percent e \<le> 100) [] \<and> is_terminal e
      \<and> list_all (\<lambda>e. event_jobId e = j) ([] @ [e])"
      by (auto simp: is_terminal_def)
    then show ?thesis by blast
  qed
qed


subsection \<open>Normalizing a selection, labelling a range\<close>

lemma set_normalize_pages:
  "set (normalize_pages n l) = (\<lambda>p. p - 1) ` {p \<in> set l. 1 \<le> p \<and> p \<le> int n}"
  by (auto simp: normalize_pages_def set_uniq)

lemma sorted_normalize_pages: "sorted_wrt (<) (normalize_pages n l)"
  by (simp add: normalize_pages_def strict_sorted_iff distinct_uniq)

lemma normalize_pages_valid: "list_all (\<lambda>p. 0 \<le> p \<and> p < int n) (normalize_pages n l)"
  by (auto simp: list_all_iff set_normalize_pages)

lemma humanPages_kept: "map (\<lambda>p. p + 1) (normalize_pages n l) = kept_pages n l"
proof (rule sorted_distinct_set_unique)
  have "sorted (normalize_pages n l)" "distinct (normalize_pages n l)"
    using sorted_normalize_pages [of n l] by (simp_all add: strict_sorted_iff)
  then show "sorted (map (\<lambda>p. p + 1) (normalize_pages n l))"
    "distinct (map (\<lambda>p. p + 1) (normalize_pages n l))"
    by (simp_all add: sorted_map distinct_map inj_on_def sorted_wrt_iff_nth_less sorted_iff_nth_mono)
  show "sorted (kept_pages n l)" "distinct (kept_pages n l)"
    by (simp_all add: kept_pages_def distinct_uniq)
  show "set (map (\<lambda>p. p + 1) (normalize_pages n l)) = set (kept_pages n l)"
    by (simp add: set_normalize_pages kept_pages_def set_uniq image_image)
qed

lemma kept_pages_empty_iff: "kept_pages n l = [] \<longleftrightarrow> normalize_pages n l = []"
  by (metis humanPages_kept map_is_Nil_conv)

lemma copyPages_normalized:
  "copyPages env src (normalize_pages (length src) l) =
     Inr (map (\<lambda>p. src ! nat p) (normalize_pages (length src) l))"
  by (simp add: copyPages_def normalize_pages_valid)

lemma range_parts_shape: "\<exists>x xs. range_parts start prev ns = x # xs \<and> x \<noteq> []"
  by (induction ns arbitrary: start prev) (auto simp: range_part_def)

lemma join_nonempty: "x \<noteq> [] \<Longrightarrow> join sep (x # xs) \<noteq> []"
  by (cases xs) auto

lemma formatRangeLabel_nonempty: "nums \<noteq> [] \<Longrightarrow> formatRangeLabel nums \<noteq> []"
proof -
  assume "nums \<noteq> []"
  then have "set (sort (uniq nums)) \<noteq> {}" by (simp add: set_uniq)
  then obtain s rest where sr: "sort (uniq nums) = s # rest" by (cases "sort (uniq nums)") auto
  from range_parts_shape obtain x xs where "range_parts s s rest = x # xs" "x \<noteq> []" by blast
  with sr show ?thesis by (simp add: formatRangeLabel_def join_nonempty)
qed

lemma split_loop_entries:
  assumes save: "pdf_save env = (\<lambda>d. Inr (sv d))"
    and valid: "\<forall>r \<in> set rs. r \<noteq> [] \<and> list_all (\<lambda>p. 0 \<le> p \<and> p < int (length src)) r"
  shows "snd (split_loop env j base src n i rs entries) =
           Inr (entries @
                map (\<lambda>r. \<lparr>entry_name = base @ ''_'' @ formatRangeLabel (map (\<lambda>p. p + 1) r) @ ''.pdf'',
                           entry_data = sv (map (\<lambda>p. src ! nat p) r)\<rparr>) rs)"
  using valid
proof (induction rs arbitrary: i entries)
  case Nil
  then show ?case by simp
next
  case (Cons r rest)
  then have "formatRangeLabel (map (\<lambda>p. p + 1) r) \<noteq> []"
    by (simp add: formatRangeLabel_nonempty)
  with Cons show ?case
    by (simp add: save copyPages_def Let_def case_prod_beta)
qed

lemma split_zip_result:
  assumes save: "pdf_save env = (\<lambda>d. Inr (sv d))"
  shows "\<exists>evs. split_zip env j f src pages ranges =
     (evs @ [Result j (base_name (file_name f) @ ''_pages.zip'')
               (buildZip (clock env)
                  (map (\<lambda>g. \<lparr>entry_name = base_name (file_name f) @ ''_''
                                  @ formatRangeLabel (kept_pages (length src) g) @ ''.pdf'',
                                entry_data = sv (map (\<lambda>p. src ! nat (p - 1))
                                                  (kept_pages (length src) g))\<rparr>)
                     (filter (\<lambda>g. kept_pages (length src) g \<noteq> [])
                        (if ranges = [] then [pages] else ranges))))
               ''application/zip''], None)"
proof -
  define gs where "gs = (if ranges = [] then [pages] else ranges)"
  define rs where "rs = filter (\<lambda>r. r \<noteq> []) (map (normalize_pages (length src)) gs)"
  have valid: "\<forall>r \<in> set rs. r \<noteq> [] \<and> list_all (\<lambda>p. 0 \<le> p \<and> p < int (length src)) r"
    by (auto simp: rs_def normalize_pages_valid)
  have rs_eq: "rs = map (normalize_pages (length src))
                      (filter (\<lambda>g. kept_pages (length src) g \<noteq> []) gs)"
    by (simp add: rs_def filter_map comp_def kept_pages_empty_iff)
  obtain evs r where loop:
    "split_loop env j (base_name (file_name f)) src (length rs) 0 rs [] = (evs, r)"
    by (cases "split_loop env j (base_name (file_name f)) src (length rs) 0 rs []")
  have "r = Inr (map (\<lambda>r. \<lparr>entry_name = base_name (file_name f) @ ''_''
                               @ formatRangeLabel (map (\<lambda>p. p + 1) r) @ ''.pdf'',
                             entry_data = sv (map (\<lambda>p. src ! nat p) r)\<rparr>) rs)"
    using split_loop_entries [OF save valid, of j "base_name (file_name f)" "length rs" 0 "[]"] loop
    by simp
  also have "map (\<lambda>r. \<lparr>entry_name = base_name (file_name f) @ ''_''
                               @ formatRangeLabel (map (\<lambda>p. p + 1) r) @ ''.pdf'',
                             entry_data = sv (map (\<lambda>p. src ! nat p) r)\<rparr>) rs
    = map (\<lambda>g. \<lparr>entry_name = base_name (file_name f) @ ''_''
                                  @ formatRangeLabel (kept_pages (length src) g) @ ''.pdf'',
                                entry_data = sv (map (\<lambda>p. src ! nat (p - 1))
                                                  (kept_pages (length src) g))\<rparr>)
                     (filter (\<lambda>g. kept_pages (length src) g \<noteq> []) gs)"
    by (simp add: rs_eq comp_def humanPages_kept [symmetric])
  finally show ?thesis
    using loop by (simp add: split_zip_def Let_def rs_def gs_def postResult_def)
qed

lemma formatRangeLabel_examples:
  "formatRangeLabel [1, 2, 3, 10] = ''p1-3_p10''"
  "formatRangeLabel [1] = ''p1''" "formatRangeLabel [3, 4] = ''p3-4''"
  by code_simp+

lemma split_zip_job_result:
  assumes dec: "decryptPdf env st (file_bytes f) (file_password f) (Some (file_name f))
                  = (st1, Inr unlocked)"
    and load: "pdf_load env unlocked = Inr src"
    and save: "pdf_save env = (\<lambda>d. Inr (sv d))"
    and flat: "kept_pages (length src) pages \<noteq> []"
  shows "last (fst (onmessage env st (Split j f pages ranges Zip))) =
           Result j (base_name (file_name f) @ ''_pages.zip'')
             (buildZip (clock env)
                (map (\<lambda>g. \<lparr>entry_name = base_name (file_name f) @ ''_''
                                @ formatRangeLabel (kept_pages (length src) g) @ ''.pdf'',
                              entry_data = sv (map (\<lambda>p. src ! nat (p - 1))
                                                (kept_pages (length src) g))\<rparr>)
                   (filter (\<lambda>g. kept_pages (length src) g \<noteq> [])
                      (if ranges = [] then [pages] else ranges))))
             ''application/zip''"
proof -
  from split_zip_result [OF save, of j f src pages ranges] obtain evs where
    z: "split_zip env j f src pages ranges =
     (evs @ [Result j (base_name (file_name f) @ ''_pages.zip'')
               (buildZip (clock env)
                  (map (\<lambda>g. \<lparr>entry_name = base_name (file_name f) @ ''_''
                                  @ formatRangeLabel (kept_pages (length src) g) @ ''.pdf'',
                                entry_data = sv (map (\<lambda>p. src ! nat (p - 1))
                                                  (kept_pages (length src) g))\<rparr>)
                     (filter (\<lambda>g. kept_pages (length src) g \<noteq> [])
                        (if ranges = [] then [pages] else ranges))))
               ''application/zip''], None)"
    by blast
  from flat have "normalize_pages (length src) pages \<noteq> []"
    by (simp add: kept_pages_empty_iff)
  then show ?thesis
    by (simp add: onmessage_simps split_def dec load z)
qed

lemma sample_save: "pdf_save (sample_env copy_run) = (\<lambda>d. Inr (id d))"
  by (simp add: fun_eq_iff)

lemma sample_groups:
  "map (\<lambda>g. \<lparr>entry_name = base_name (file_name sample_file) @ ''_''
                  @ formatRangeLabel (kept_pages (length [1, 2, 3, 4, 5 :: byte]) g) @ ''.pdf'',
               entry_data = id (map (\<lambda>p. [1, 2, 3, 4, 5 :: byte] ! nat (p - 1))
                                  (kept_pages (length [1, 2, 3, 4, 5 :: byte]) g))\<rparr>)
     (filter (\<lambda>g. kept_pages (length [1, 2, 3, 4, 5 :: byte]) g \<noteq> [])
        (if [[1], [3, 4]] = [] then [[1, 3, 4]] else [[1], [3, 4 :: int]]))
   = [\<lparr>entry_name = ''a_p1.pdf'', entry_data = [1]\<rparr>,
      \<lparr>entry_name = ''a_p3-4.pdf'', entry_data = [3, 4]\<rparr>]"
  by code_simp

lemma sample_groups_missing:
  "map (\<lambda>g. \<lparr>entry_name = base_name (file_name sample_file) @ ''_''
                  @ formatRangeLabel (kept_pages (length [1, 2, 3, 4, 5 :: byte]) g) @ ''.pdf'',
               entry_data = id (map (\<lambda>p. [1, 2, 3, 4, 5 :: byte] ! nat (p - 1))
                                  (kept_pages (length [1, 2, 3, 4, 5 :: byte]) g))\<rparr>)
     (filter (\<lambda>g. kept_pages (length [1, 2, 3, 4, 5 :: byte]) g \<noteq> [])
        (if [[1, 2, 3, 10], [9]] = [] then [[1, 2, 3, 10]] else [[1, 2, 3, 10], [9 :: int]]))
   = [\<lparr>entry_name = ''a_p1-3.pdf'', entry_data = [1, 2, 3]\<rparr>]"
  by code_simp

lemma split_single_result:
  assumes save: "pdf_save env = (\<lambda>d. Inr (sv d))"
  shows "\<exists>evs x. split_single env j src (normalize_pages (length src) pages) =
           (evs @ [Result j ''split_pages.pdf'' x ''application/pdf''], None)"
  by (simp add: split_single_def copyPages_normalized save postResult_def)

subsection \<open>The entries of the archive\<close>




subsection \<open>An empty selection\<close>




subsection \<open>Merging fewer than two documents\<close>

lemma merge_loop_first:
  "\<exists>evs st1 r. merge_loop env j n 0 (f # rest) st out =
     (Progress j 10 (''Importing '' @ file_name f @ hellip) # evs, st1, r)"
  by (simp add: postProgress_def Let_def split: prod.splits sum.splits)

lemma merge_starts_importing:
  "take 2 (fst (onmessage env st (Merge j (f # rest)))) =
     [Progress j 5 (''Loading PDFs'' @ hellip),
      Progress j 10 (''Importing '' @ file_name f @ hellip)]"
proof -
  from merge_loop_first [of env j "length (f # rest)" f rest st "[]"] obtain evs st1 r where
    "merge_loop env j (length (f # rest)) 0 (f # rest) st [] =
       (Progress j 10 (''Importing '' @ file_name f @ hellip) # evs, st1, r)"
    by blast
  then show ?thesis
    by (simp add: onmessage_simps merge_def postProgress_def Let_def del: merge_loop.simps
          split: sum.splits)
qed

text \<open>
  C4, as the code has it. With the merge tool active and fewer than two files chosen,
  \<open>runJob\<close> raises an alert (\<open>Add PDFs first.\<close> with no file, \<open>Merge needs at least 2 PDFs.\<close>
  with one), leaves the job list as it was and posts no request to the worker: no job
  exists, no collaborator runs, no event is posted. The engine has no check of its own:
  whatever the number of documents of a merge request that reaches it, it starts
  importing the first.
\<close>

theorem merge_needs_two_files:
  assumes "activeTool ui = MergeTool" and "length (files ui) < 2"
  shows "runJob ui jobId now =
           (Some (if files ui = [] then ''Add PDFs first.'' else ''Merge needs at least 2 PDFs.''),
            jobs ui, None)
       \<and> take 2 (fst (onmessage env st (Merge j (f # rest)))) =
           [Progress j 5 (''Loading PDFs'' @ hellip),
            Progress j 10 (''Importing '' @ file_name f @ hellip)]"
  using assms by (simp add: runJob_def merge_starts_importing)

theorem merge_needs_two_files_witness:
  "runJob sample_ui ''job_1'' 0 = (Some ''Merge needs at least 2 PDFs.'', [], None)
   \<and> take 2 (fst (onmessage (sample_env copy_run) fresh (Merge ''job_1'' (sample_file # [])))) =
           [Progress ''job_1'' 5 (''Loading PDFs'' @ hellip),
            Progress ''job_1'' 10 (''Importing '' @ file_name sample_file @ hellip)]"
proof -
  have a: "activeTool sample_ui = MergeTool" by (simp add: sample_ui_def)
  have b: "length (files sample_ui) < 2" by (simp add: sample_ui_def)
  show ?thesis
    using merge_needs_two_files [OF a b, of "''job_1''" 0 "sample_env copy_run" fresh "''job_1''"
            sample_file "[]"]
    by (simp add: sample_ui_def)
qed

text \<open>
  The engine itself has no such check: a merge request with a single document that
  reaches it is decrypted by the rewrite engine, loaded, saved and answered with a result.
\<close>

theorem merge_of_one_file_succeeds:
  "(case onmessage (sample_env copy_run) fresh (Merge ''job'' [sample_file]) of
      (evs, st) \<Rightarrow>
        evs = [Progress ''job'' 5 (''Loading PDFs'' @ hellip),
               Progress ''job'' 10 (''Importing a.pdf'' @ hellip),
               Progress ''job'' 80 (''Saving'' @ hellip),
               Progress ''job'' 100 ''Done'',
               Result ''job'' ''merged.pdf'' [1, 2, 3, 4, 5] ''application/pdf'']
        \<and> qpdfRunId st = 1)"
  by code_simp

end
